theory Spec2Isabelle
  imports Main "HOL-Library.Finite_Map" "HOL-Library.Multiset"
begin

section \<open>Object model\<close>

text \<open>
  An \<^verbatim>\<open>unstructured.Unstructured\<close> wraps \<^verbatim>\<open>Object map[string]interface{}\<close>, the decoded
  JSON of a cluster object. A Go map has no key order, so a map is a finite map; the
  \<^verbatim>\<open>interface{}\<close> values of decoded JSON are the constructors of \<open>jv\<close>, with \<open>JNull\<close> the
  nil interface.
\<close>

datatype jv =
    JNull
  | JBool bool
  | JNum int
  | JStr string
  | JList "jv list"
  | JMap "(string, jv) fmap"

type_synonym obj = "(string, jv) fmap"

text \<open>\<^verbatim>\<open>m[key]\<close> on a \<^verbatim>\<open>map[string]interface{}\<close>: the zero value (nil) when the key is absent.\<close>

definition Object :: "obj \<Rightarrow> string \<Rightarrow> jv" where
  "Object m key = (case fmlookup m key of None \<Rightarrow> JNull | Some v \<Rightarrow> v)"

text \<open>\<^verbatim>\<open>_, ok := m[key]\<close>: whether the key is present, whatever its value.\<close>

definition hasKey :: "obj \<Rightarrow> string \<Rightarrow> bool" where
  "hasKey m key = (fmlookup m key \<noteq> None)"

text \<open>
  The accessors of \<^verbatim>\<open>Unstructured\<close> used by the resource manager. They read a nested field
  and fall back to the zero value when the path is absent or holds a value of another type:
  \<^verbatim>\<open>GetResourceVersion\<close> and \<^verbatim>\<open>GetKind\<close> return the empty string, \<^verbatim>\<open>GetLabels\<close> and
  \<^verbatim>\<open>GetAnnotations\<close> return a nil \<^verbatim>\<open>map[string]string\<close> (here \<open>JNull\<close>; a non-nil one is a
  \<open>JMap\<close> of \<open>JStr\<close> values).
\<close>

fun NestedFieldNoCopy :: "jv \<Rightarrow> string list \<Rightarrow> jv option" where
  "NestedFieldNoCopy v [] = Some v"
| "NestedFieldNoCopy (JMap m) (f # fs) =
     (case fmlookup m f of None \<Rightarrow> None | Some v \<Rightarrow> NestedFieldNoCopy v fs)"
| "NestedFieldNoCopy _ (f # fs) = None"

definition NestedString :: "obj \<Rightarrow> string list \<Rightarrow> string" where
  "NestedString m fields =
     (case NestedFieldNoCopy (JMap m) fields of Some (JStr s) \<Rightarrow> s | _ \<Rightarrow> [])"

definition isJStr :: "jv \<Rightarrow> bool" where
  "isJStr v = (case v of JStr _ \<Rightarrow> True | _ \<Rightarrow> False)"

definition NestedStringMap :: "obj \<Rightarrow> string list \<Rightarrow> jv" where
  "NestedStringMap m fields =
     (case NestedFieldNoCopy (JMap m) fields of
        Some (JMap sm) \<Rightarrow> if fmpred (\<lambda>_. isJStr) sm then JMap sm else JNull
      | _ \<Rightarrow> JNull)"

definition GetResourceVersion :: "obj \<Rightarrow> string" where
  "GetResourceVersion u = NestedString u [''metadata'', ''resourceVersion'']"

definition GetKind :: "obj \<Rightarrow> string" where
  "GetKind u = NestedString u [''kind'']"

definition GetLabels :: "obj \<Rightarrow> jv" where
  "GetLabels u = NestedStringMap u [''metadata'', ''labels'']"

definition GetAnnotations :: "obj \<Rightarrow> jv" where
  "GetAnnotations u = NestedStringMap u [''metadata'', ''annotations'']"

text \<open>
  \<^verbatim>\<open>unstructured.RemoveNestedField(obj, "metadata", "managedFields")\<close> as \<^verbatim>\<open>Diff\<close> calls it:
  it deletes the key from the map under \<^verbatim>\<open>metadata\<close> when that is a map, and does nothing
  otherwise.
\<close>

definition RemoveManagedFields :: "obj \<Rightarrow> obj" where
  "RemoveManagedFields m =
     (case fmlookup m ''metadata'' of
        Some (JMap md) \<Rightarrow> fmupd ''metadata'' (JMap (fmdrop ''managedFields'' md)) m
      | _ \<Rightarrow> m)"

section \<open>Errors and change-set entries\<close>

text \<open>
  A Go \<^verbatim>\<open>error\<close> value. \<open>ApiError\<close> is an error returned by a collaborator (the cluster
  client, the formatter): whether its status reason is not-found, and its message. \<open>Errorf\<close>
  is an error built by \<^verbatim>\<open>fmt.Errorf\<close>: the formatted message and, when the format wraps
  with \<^verbatim>\<open>%w\<close>, the cause. \<open>Error\<close> is the method \<^verbatim>\<open>Error()\<close>; \<open>IsNotFound\<close> is
  \<^verbatim>\<open>apierrors.IsNotFound\<close>, which looks through wrapping.
\<close>

datatype error = ApiError bool string | Errorf string "error option"

primrec Error :: "error \<Rightarrow> string" where
  "Error (ApiError notFound msg) = msg"
| "Error (Errorf msg cause) = msg"

primrec IsNotFound :: "error \<Rightarrow> bool" where
  "IsNotFound (ApiError notFound msg) = notFound"
| "IsNotFound (Errorf msg cause) =
     (case map_option IsNotFound cause of Some b \<Rightarrow> b | None \<Rightarrow> False)"

datatype Action =
    CreatedAction | ConfiguredAction | UnchangedAction
  | SkippedAction | DeletedAction | FailedAction

record ChangeSetEntry =
  Subject :: string
  Action :: Action
  Diff_text :: string

section \<open>The resource manager and its collaborators\<close>

text \<open>
  The resource manager reaches the cluster and the formatting helpers through fields and
  imported packages whose code is outside \<^verbatim>\<open>manager_diff.go\<close>. They are the fields of this
  record: \<open>kubeClient_Get\<close> (the live object, or the error of the lookup), \<open>dryRunApply\<close> (the
  object as the server would store it, or the error), \<open>DeepDerivative\<close>
  (\<^verbatim>\<open>apiequality.Semantic.DeepDerivative\<close>), \<open>fmt_MaskSecret\<close> and \<open>fmt_Unstructured\<close>
  (\<^verbatim>\<open>kc.fmt\<close>), \<open>yaml_Marshal\<close> and \<open>cmp_Diff\<close>. The type \<open>'y\<close> is a marshalled YAML document.
\<close>

record 'y ResourceManager =
  kubeClient_Get :: "obj \<Rightarrow> obj \<Rightarrow> error + obj"
  dryRunApply :: "obj \<Rightarrow> error + obj"
  DeepDerivative :: "jv \<Rightarrow> jv \<Rightarrow> bool"
  fmt_MaskSecret :: "obj \<Rightarrow> string \<Rightarrow> error + obj"
  fmt_Unstructured :: "obj \<Rightarrow> string"
  yaml_Marshal :: "obj \<Rightarrow> 'y"
  cmp_Diff :: "'y \<Rightarrow> 'y \<Rightarrow> string"

text \<open>
  Modelled from the spec: \<^verbatim>\<open>changeSetEntry\<close> is declared outside \<^verbatim>\<open>manager_diff.go\<close>. The spec
  gives a Change-Set Entry an object reference, an action and an optional diff text; a new
  entry carries the identity of the object, the action, and no diff text.
\<close>

definition changeSetEntry :: "'y ResourceManager \<Rightarrow> obj \<Rightarrow> Action \<Rightarrow> ChangeSetEntry" where
  "changeSetEntry kc object action =
     \<lparr>Subject = fmt_Unstructured kc object, Action = action, Diff_text = []\<rparr>"

section \<open>Drift detection\<close>

text \<open>
  \<^verbatim>\<open>hasDrifted\<close> of \<^verbatim>\<open>manager_diff.go\<close>. The second component of the result lists the calls
  of \<^verbatim>\<open>DeepDerivative\<close> the function made, in order, each as its pair of operands.
\<close>

definition hasDrifted ::
  "'y ResourceManager \<Rightarrow> obj \<Rightarrow> obj \<Rightarrow> bool \<times> (jv \<times> jv) list" where
  "hasDrifted kc existingObject dryRunObject =
     (if GetResourceVersion dryRunObject = [] then (True, [])
      else
        let labels = (GetLabels dryRunObject, GetLabels existingObject) in
        if \<not> DeepDerivative kc (fst labels) (snd labels) then (True, [labels])
        else
          let annotations = (GetAnnotations dryRunObject, GetAnnotations existingObject) in
          if \<not> DeepDerivative kc (fst annotations) (snd annotations)
          then (True, [labels, annotations])
          else if hasKey existingObject ''spec'' then
            let spec = (Object dryRunObject ''spec'', Object existingObject ''spec'') in
            if \<not> DeepDerivative kc (fst spec) (snd spec)
            then (True, [labels, annotations, spec])
            else (False, [labels, annotations, spec])
          else if hasKey existingObject ''webhooks'' then
            let webhooks = (Object dryRunObject ''webhooks'', Object existingObject ''webhooks'') in
            if \<not> DeepDerivative kc (fst webhooks) (snd webhooks)
            then (True, [labels, annotations, webhooks])
            else (False, [labels, annotations, webhooks])
          else
            let body = (JMap dryRunObject, JMap existingObject) in
            if \<not> DeepDerivative kc (fst body) (snd body)
            then (True, [labels, annotations, body])
            else (False, [labels, annotations, body]))"

text \<open>
  The body scope as the specification words it: \<^verbatim>\<open>spec\<close> if the existing object has one, else
  \<^verbatim>\<open>webhooks\<close> if present, else the whole object body; the desired side first.
\<close>

definition bodyScope :: "obj \<Rightarrow> obj \<Rightarrow> jv \<times> jv" where
  "bodyScope existingObject dryRunObject =
     (if hasKey existingObject ''spec''
      then (Object dryRunObject ''spec'', Object existingObject ''spec'')
      else if hasKey existingObject ''webhooks''
      then (Object dryRunObject ''webhooks'', Object existingObject ''webhooks'')
      else (JMap dryRunObject, JMap existingObject))"

definition comparisons :: "obj \<Rightarrow> obj \<Rightarrow> (jv \<times> jv) list" where
  "comparisons existingObject dryRunObject =
     [(GetLabels dryRunObject, GetLabels existingObject),
      (GetAnnotations dryRunObject, GetAnnotations existingObject),
      bodyScope existingObject dryRunObject]"

section \<open>Validation errors\<close>

text \<open>\<^verbatim>\<open>validationError\<close> of \<^verbatim>\<open>manager_diff.go\<close>: the three formats, in the order of the source.\<close>

definition validationError :: "'y ResourceManager \<Rightarrow> obj \<Rightarrow> error \<Rightarrow> error" where
  "validationError kc object err =
     (if IsNotFound err then
        Errorf (fmt_Unstructured kc object @ '' namespace not specified, error: '' @ Error err)
          (Some err)
      else if GetKind object = ''Secret'' then
        Errorf (fmt_Unstructured kc object
                  @ '' is invalid, error: data values must be of type string'') None
      else
        Errorf (fmt_Unstructured kc object @ '' is invalid, error: '' @ Error err) (Some err))"

section \<open>Diff\<close>

text \<open>
  \<^verbatim>\<open>Diff\<close> receives a pointer and works on pointers, so the objects live in a store: a list
  of objects, a pointer being an index. \<^verbatim>\<open>DeepCopy\<close> allocates a new cell. A collaborator
  that is handed a pointer writes to that cell only: \<^verbatim>\<open>kubeClient.Get\<close> and \<^verbatim>\<open>dryRunApply\<close>
  overwrite it on success and leave it as passed on failure, \<^verbatim>\<open>RemoveNestedField\<close> edits it
  in place, and \<^verbatim>\<open>MaskSecret\<close> masks it in place and returns the same pointer.
\<close>

type_synonym heap = "obj list"
type_synonym ptr = nat

definition DeepCopy :: "heap \<Rightarrow> ptr \<Rightarrow> heap \<times> ptr" where
  "DeepCopy h p = (h @ [h ! p], length h)"

definition maskingFailed :: "error \<Rightarrow> error" where
  "maskingFailed err = Errorf (''masking secret data failed, error: '' @ Error err) (Some err)"

definition Diff ::
  "'y ResourceManager \<Rightarrow> heap \<Rightarrow> ptr \<Rightarrow> (error + ChangeSetEntry) \<times> heap" where
  "Diff kc h0 object =
     (let (h1, existingObject) = DeepCopy h0 object;
          h2 = (case kubeClient_Get kc (h1 ! object) (h1 ! existingObject) of
                  Inl _ \<Rightarrow> h1
                | Inr live \<Rightarrow> h1[existingObject := live]);
          (h3, dryRunObject) = DeepCopy h2 object
      in case dryRunApply kc (h3 ! dryRunObject) of
           Inl err \<Rightarrow> (Inl (validationError kc (h3 ! dryRunObject) err), h3)
         | Inr applied \<Rightarrow>
             let h4 = h3[dryRunObject := applied] in
             if GetResourceVersion (h4 ! dryRunObject) = [] then
               (Inr (changeSetEntry kc (h4 ! dryRunObject) CreatedAction), h4)
             else if fst (hasDrifted kc (h4 ! existingObject) (h4 ! dryRunObject)) then
               let cse = changeSetEntry kc (h4 ! object) ConfiguredAction;
                   h5 = h4[dryRunObject := RemoveManagedFields (h4 ! dryRunObject)];
                   h6 = h5[existingObject := RemoveManagedFields (h5 ! existingObject)];
                   masked =
                     (if GetKind (h6 ! dryRunObject) = ''Secret'' then
                        case fmt_MaskSecret kc (h6 ! dryRunObject) ''******'' of
                          Inl err \<Rightarrow> (Some (maskingFailed err), h6)
                        | Inr d \<Rightarrow>
                            let h7 = h6[dryRunObject := d] in
                            (case fmt_MaskSecret kc (h7 ! existingObject) ''*****'' of
                               Inl err \<Rightarrow> (Some (maskingFailed err), h7)
                             | Inr ex \<Rightarrow> (None, h7[existingObject := ex]))
                      else (None, h6))
               in case masked of
                    (Some err, h8) \<Rightarrow> (Inl err, h8)
                  | (None, h8) \<Rightarrow>
                      let d = yaml_Marshal kc (h8 ! dryRunObject);
                          e = yaml_Marshal kc (h8 ! existingObject)
                      in (Inr (cse\<lparr>Diff_text := cmp_Diff kc e d\<rparr>), h8)
             else (Inr (changeSetEntry kc (h4 ! dryRunObject) UnchangedAction), h4))"

text \<open>The content of \<^verbatim>\<open>existingObject\<close> once the \<^verbatim>\<open>Get\<close> of \<^verbatim>\<open>Diff\<close> has returned.\<close>

definition existingAfterGet :: "'y ResourceManager \<Rightarrow> obj \<Rightarrow> obj" where
  "existingAfterGet kc object =
     (case kubeClient_Get kc object object of Inl _ \<Rightarrow> object | Inr live \<Rightarrow> live)"

section \<open>The apply command\<close>

text \<open>
  \<^verbatim>\<open>runApplyCmd\<close> of \<^verbatim>\<open>cmd/kustomizer/apply.go\<close>. The manifest builder, the inventory manager
  and the resource manager are the fields of \<open>applyEnv\<close>; the calls that reach the cluster
  take the state of the world \<open>'w\<close> and return the new one. Every such call and every line
  logged is recorded, with the error it returned, in a trace.
\<close>

record applyFlags =
  filename :: "string list"
  kustomize :: string
  inventoryName :: string
  inventoryNamespace :: string
  wait :: bool
  force :: bool
  prune :: bool

datatype event =
    ApplyEv obj bool "error option"
  | GetStaleObjectsEv "error option"
  | StoreEv "error option"
  | DeleteAllEv "obj list" "error option"
  | WaitEv "error option"
  | WaitForTerminationEv "error option"
  | Println string

record ('w, 'inv) applyEnv =
  buildManifests :: "string \<Rightarrow> string list \<Rightarrow> error + obj list"
  inventoryMgr_Record :: "obj list \<Rightarrow> error + 'inv"
  NewResourceManager :: "error option"
  resMgr_Apply :: "obj \<Rightarrow> bool \<Rightarrow> 'w \<Rightarrow> (error + ChangeSetEntry) \<times> 'w"
  inventoryMgr_GetStaleObjects ::
    "'inv \<Rightarrow> string \<Rightarrow> string \<Rightarrow> 'w \<Rightarrow> (error + obj list) \<times> 'w"
  inventoryMgr_Store :: "'inv \<Rightarrow> string \<Rightarrow> string \<Rightarrow> 'w \<Rightarrow> error option \<times> 'w"
  resMgr_DeleteAll :: "obj list \<Rightarrow> 'w \<Rightarrow> (error + ChangeSetEntry list) \<times> 'w"
  resMgr_Wait :: "obj list \<Rightarrow> 'w \<Rightarrow> error option \<times> 'w"
  resMgr_WaitForTermination :: "obj list \<Rightarrow> 'w \<Rightarrow> error option \<times> 'w"
  change_String :: "ChangeSetEntry \<Rightarrow> string"

text \<open>The loop over \<^verbatim>\<open>objects\<close>: it returns at the first \<^verbatim>\<open>Apply\<close> that fails.\<close>

fun applyLoop ::
  "('w, 'inv) applyEnv \<Rightarrow> bool \<Rightarrow> obj list \<Rightarrow> 'w \<times> event list
     \<Rightarrow> error option \<times> 'w \<times> event list" where
  "applyLoop env frc [] (w, tr) = (None, w, tr)"
| "applyLoop env frc (object # objects) (w, tr) =
     (case resMgr_Apply env object frc w of
        (Inl err, w') \<Rightarrow> (Some err, w', tr @ [ApplyEv object frc (Some err)])
      | (Inr change, w') \<Rightarrow>
          applyLoop env frc objects
            (w', tr @ [ApplyEv object frc None, Println (change_String env change)]))"

text \<open>The part of \<^verbatim>\<open>runApplyCmd\<close> after the inventory was stored: pruning and waiting.\<close>

definition pruneAndWait ::
  "('w, 'inv) applyEnv \<Rightarrow> applyFlags \<Rightarrow> obj list \<Rightarrow> obj list \<Rightarrow> 'w \<times> event list
     \<Rightarrow> error option \<times> 'w \<times> event list" where
  "pruneAndWait env args objects staleObjects s =
     (let (w, tr) = s;
          pruned =
            (if prune args \<and> length staleObjects > 0 then
               case resMgr_DeleteAll env staleObjects w of
                 (Inl err, w') \<Rightarrow>
                   (Some (Errorf (''prune failed, error: '' @ Error err) (Some err)),
                    w', tr @ [DeleteAllEv staleObjects (Some err)])
               | (Inr entries, w') \<Rightarrow>
                   (None, w',
                    tr @ [DeleteAllEv staleObjects None]
                       @ map (\<lambda>change. Println (change_String env change)) entries)
             else (None, w, tr))
      in case pruned of
           (Some err, w1, tr1) \<Rightarrow> (Some err, w1, tr1)
         | (None, w1, tr1) \<Rightarrow>
             if wait args then
               let tr2 = tr1 @ [Println ''waiting for resources to become ready...''] in
               case resMgr_Wait env objects w1 of
                 (Some err, w2) \<Rightarrow> (Some err, w2, tr2 @ [WaitEv (Some err)])
               | (None, w2) \<Rightarrow>
                   let tr3 = tr2 @ [WaitEv None] in
                   if prune args \<and> length staleObjects > 0 then
                     case resMgr_WaitForTermination env staleObjects w2 of
                       (Some err, w3) \<Rightarrow>
                         (Some (Errorf (''wating for termination failed, error: '' @ Error err)
                                  (Some err)),
                          w3, tr3 @ [WaitForTerminationEv (Some err)])
                     | (None, w3) \<Rightarrow>
                         (None, w3,
                          tr3 @ [WaitForTerminationEv None, Println ''all resources are ready''])
                   else (None, w2, tr3 @ [Println ''all resources are ready''])
             else (None, w1, tr1))"

definition runApplyCmd ::
  "('w, 'inv) applyEnv \<Rightarrow> applyFlags \<Rightarrow> 'w \<Rightarrow> error option \<times> 'w \<times> event list" where
  "runApplyCmd env args w0 =
     (if kustomize args = [] \<and> length (filename args) = 0 then
        (Some (Errorf ''-f or -k is required'' None), w0, [])
      else if inventoryName args = [] then
        (Some (Errorf ''--inventory-name is required'' None), w0, [])
      else if inventoryNamespace args = [] then
        (Some (Errorf ''--inventory-namespace is required'' None), w0, [])
      else case buildManifests env (kustomize args) (filename args) of
        Inl err \<Rightarrow> (Some err, w0, [])
      | Inr objects \<Rightarrow>
         (case inventoryMgr_Record env objects of
            Inl err \<Rightarrow>
              (Some (Errorf (''creating inventory failed, error: '' @ Error err) (Some err)),
               w0, [])
          | Inr newInventory \<Rightarrow>
             (case NewResourceManager env of
                Some err \<Rightarrow> (Some err, w0, [])
              | None \<Rightarrow>
                 (case applyLoop env (force args) objects (w0, []) of
                    (Some err, w1, tr1) \<Rightarrow> (Some err, w1, tr1)
                  | (None, w1, tr1) \<Rightarrow>
                     (case inventoryMgr_GetStaleObjects env newInventory
                             (inventoryName args) (inventoryNamespace args) w1 of
                        (Inl err, w2) \<Rightarrow>
                          (Some (Errorf (''inventory query failed, error: '' @ Error err)
                                   (Some err)),
                           w2, tr1 @ [GetStaleObjectsEv (Some err)])
                      | (Inr staleObjects, w2) \<Rightarrow>
                         (case inventoryMgr_Store env newInventory
                                 (inventoryName args) (inventoryNamespace args) w2 of
                            (Some err, w3) \<Rightarrow>
                              (Some (Errorf (''inventory apply failed, error: '' @ Error err)
                                       (Some err)),
                               w3, tr1 @ [GetStaleObjectsEv None, StoreEv (Some err)])
                          | (None, w3) \<Rightarrow>
                              pruneAndWait env args objects staleObjects
                                (w3, tr1 @ [GetStaleObjectsEv None, StoreEv None])))))))"

text \<open>What the claims about a run read off its trace.\<close>

definition isApplyEv :: "event \<Rightarrow> bool" where
  "isApplyEv ev = (case ev of ApplyEv _ _ _ \<Rightarrow> True | _ \<Rightarrow> False)"

definition isFailedApplyEv :: "event \<Rightarrow> bool" where
  "isFailedApplyEv ev = (case ev of ApplyEv _ _ (Some _) \<Rightarrow> True | _ \<Rightarrow> False)"

definition isInventoryEv :: "event \<Rightarrow> bool" where
  "isInventoryEv ev =
     (case ev of GetStaleObjectsEv _ \<Rightarrow> True | StoreEv _ \<Rightarrow> True | _ \<Rightarrow> False)"

definition isStoreEv :: "event \<Rightarrow> bool" where
  "isStoreEv ev = (case ev of StoreEv _ \<Rightarrow> True | _ \<Rightarrow> False)"

definition appliedObjects :: "event list \<Rightarrow> obj list" where
  "appliedObjects tr = concat (map (\<lambda>ev. case ev of ApplyEv object _ None \<Rightarrow> [object] | _ \<Rightarrow> []) tr)"

section \<open>Maps built by insertion\<close>



section \<open>Stand-ins for the collaborators\<close>

text \<open>
  Modelled from the spec: the comparison is \<^verbatim>\<open>apiequality.Semantic.DeepDerivative\<close> of the
  Kubernetes API machinery, whose code is not under \<^verbatim>\<open>src/\<close>. The spec describes it as a
  semantic deep-derivative equality: the live object may have extra fields, presence of
  extra fields on the existing side is not drift, and any field explicitly present on the
  desired side must match. A field absent on the desired side reads as nil there.
\<close>

primrec derives :: "jv \<Rightarrow> jv \<Rightarrow> bool" where
  "derives JNull = (\<lambda>existing. True)"
| "derives (JBool b) = (\<lambda>existing. existing = JBool b)"
| "derives (JNum n) = (\<lambda>existing. existing = JNum n)"
| "derives (JStr s) = (\<lambda>existing. existing = JStr s)"
| "derives (JList vs) = (\<lambda>existing. existing = JList vs)"
| "derives (JMap desired) = (\<lambda>existing.
     case existing of
       JMap live \<Rightarrow>
         fmpred (\<lambda>k matches. case fmlookup live k of None \<Rightarrow> False | Some v \<Rightarrow> matches v)
           (fmmap derives desired)
     | _ \<Rightarrow> False)"

text \<open>
  Modelled from the spec: \<^verbatim>\<open>MaskSecret\<close> of \<^verbatim>\<open>kc.fmt\<close> is declared outside
  \<^verbatim>\<open>manager_diff.go\<close>. The spec: the sensitive values of a secret-bearing object are all
  replaced by the mask token; here they are the values under \<^verbatim>\<open>data\<close>.
\<close>

definition MaskSecret :: "obj \<Rightarrow> string \<Rightarrow> error + obj" where
  "MaskSecret object token =
     (case fmlookup object ''data'' of
        None \<Rightarrow> Inr object
      | Some (JMap secrets) \<Rightarrow> Inr (fmupd ''data'' (JMap (fmmap (\<lambda>_. JStr token) secrets)) object)
      | Some _ \<Rightarrow> Inl (ApiError False ''data is not a map''))"

text \<open>
  Modelled from the spec: \<^verbatim>\<open>Unstructured\<close> of \<^verbatim>\<open>kc.fmt\<close> is declared outside
  \<^verbatim>\<open>manager_diff.go\<close>. The spec: a descriptive, human-addressed object identity
  (kind/namespace/name).
\<close>

definition FmtUnstructured :: "obj \<Rightarrow> string" where
  "FmtUnstructured object =
     GetKind object @ ''/'' @ NestedString object [''metadata'', ''namespace'']
       @ ''/'' @ NestedString object [''metadata'', ''name'']"

text \<open>
  A resource manager over a cluster that answers every \<^verbatim>\<open>Get\<close> with \<open>got\<close> and every dry-run
  apply with \<open>applied\<close>. A marshalled document is the object itself, and the diff of two
  documents is empty exactly when they are equal.
\<close>

definition fakeManager :: "error + obj \<Rightarrow> error + obj \<Rightarrow> obj ResourceManager" where
  "fakeManager got applied =
     \<lparr>kubeClient_Get = (\<lambda>key out. got),
      dryRunApply = (\<lambda>object. applied),
      DeepDerivative = derives,
      fmt_MaskSecret = MaskSecret,
      fmt_Unstructured = FmtUnstructured,
      yaml_Marshal = (\<lambda>object. object),
      cmp_Diff = (\<lambda>e d. if e = d then [] else ''changed'')\<rparr>"

text \<open>
  An apply environment whose world is the stored inventory: \<^verbatim>\<open>Apply\<close> rejects an object
  without a kind, \<^verbatim>\<open>Store\<close> overwrites the stored inventory, nothing is ever stale.
\<close>

definition fakeEnv :: "(obj list option, obj list) applyEnv" where
  "fakeEnv =
     \<lparr>buildManifests = (\<lambda>k files. Inr (map (\<lambda>f. fmupd ''kind'' (JStr f) fmempty) files)),
      inventoryMgr_Record = (\<lambda>objects. Inr objects),
      NewResourceManager = None,
      resMgr_Apply = (\<lambda>object frc w.
        if GetKind object = [] then (Inl (ApiError False ''kind is missing''), w)
        else (Inr \<lparr>Subject = GetKind object, Action = CreatedAction, Diff_text = []\<rparr>, w)),
      inventoryMgr_GetStaleObjects = (\<lambda>inv name ns w. (Inr [], w)),
      inventoryMgr_Store = (\<lambda>inv name ns w. (None, Some inv)),
      resMgr_DeleteAll = (\<lambda>objects w. (Inr [], w)),
      resMgr_Wait = (\<lambda>objects w. (None, w)),
      resMgr_WaitForTermination = (\<lambda>objects w. (None, w)),
      change_String = Subject\<rparr>"

section \<open>Example objects\<close>

text \<open>
  A ConfigMap, a Deployment and a Secret, each with the given extra \<^verbatim>\<open>metadata\<close> fields (a
  resource version, finalizers, managed fields) and the given content.
\<close>

definition configMap :: "(string \<times> jv) list \<Rightarrow> string \<Rightarrow> obj" where
  "configMap extra v =
     fmap_of_list
       [(''kind'', JStr ''ConfigMap''),
        (''metadata'', JMap (fmap_of_list ((''name'', JStr ''cfg1'') # extra))),
        (''data'', JMap (fmap_of_list [(''key'', JStr v)]))]"

definition deployment :: "(string \<times> jv) list \<Rightarrow> int \<Rightarrow> obj" where
  "deployment extra replicas =
     fmap_of_list
       [(''kind'', JStr ''Deployment''),
        (''metadata'', JMap (fmap_of_list
           ((''name'', JStr ''web'')
            # (''labels'', JMap (fmap_of_list [(''app'', JStr ''web'')])) # extra))),
        (''spec'', JMap (fmap_of_list [(''replicas'', JNum replicas)]))]"

definition secret :: "(string \<times> jv) list \<Rightarrow> string \<Rightarrow> obj" where
  "secret extra password =
     fmap_of_list
       [(''kind'', JStr ''Secret''),
        (''metadata'', JMap (fmap_of_list ((''name'', JStr ''db'') # extra))),
        (''data'', JMap (fmap_of_list [(''password'', JStr password)]))]"

section \<open>Properties of Diff, path by path\<close>

lemmas eval_simps =
  GetResourceVersion_def GetKind_def GetLabels_def GetAnnotations_def NestedString_def
  NestedStringMap_def Object_def hasKey_def isJStr_def fmpred_iff configMap_def
  deployment_def secret_def

lemma fmlookup_RemoveManagedFields:
  "k \<noteq> ''metadata'' \<Longrightarrow> fmlookup (RemoveManagedFields u) k = fmlookup u k"
  by (simp add: RemoveManagedFields_def split: option.splits jv.splits)

lemma GetKind_RemoveManagedFields [simp]: "GetKind (RemoveManagedFields u) = GetKind u"
  by (simp add: GetKind_def NestedString_def fmlookup_RemoveManagedFields)


lemma Diff_Created:
  assumes "object < length h" and "dryRunApply kc (h ! object) = Inr applied"
    and "GetResourceVersion applied = []"
  shows "fst (Diff kc h object) = Inr (changeSetEntry kc applied CreatedAction)"
proof (cases "kubeClient_Get kc (h ! object) (h ! object)")
  case (Inl a)
  then show ?thesis using assms by (simp add: Diff_def DeepCopy_def Let_def nth_append)
next
  case (Inr b)
  then show ?thesis using assms by (simp add: Diff_def DeepCopy_def Let_def nth_append)
qed

lemma Diff_Unchanged:
  assumes "object < length h" and "dryRunApply kc (h ! object) = Inr applied"
    and "GetResourceVersion applied \<noteq> []"
    and "\<not> fst (hasDrifted kc (existingAfterGet kc (h ! object)) applied)"
  shows "fst (Diff kc h object) = Inr (changeSetEntry kc applied UnchangedAction)"
proof (cases "kubeClient_Get kc (h ! object) (h ! object)")
  case (Inl a)
  then show ?thesis using assms
    by (simp add: Diff_def DeepCopy_def Let_def nth_append existingAfterGet_def)
next
  case (Inr b)
  then show ?thesis using assms
    by (simp add: Diff_def DeepCopy_def Let_def nth_append existingAfterGet_def)
qed

lemma Diff_Configured:
  assumes "object < length h" and "dryRunApply kc (h ! object) = Inr applied"
    and "GetResourceVersion applied \<noteq> []"
    and "fst (hasDrifted kc (existingAfterGet kc (h ! object)) applied)"
    and "GetKind applied \<noteq> ''Secret''"
  shows "fst (Diff kc h object) =
           Inr ((changeSetEntry kc (h ! object) ConfiguredAction)
                  \<lparr>Diff_text := cmp_Diff kc
                     (yaml_Marshal kc (RemoveManagedFields (existingAfterGet kc (h ! object))))
                     (yaml_Marshal kc (RemoveManagedFields applied))\<rparr>)"
proof (cases "kubeClient_Get kc (h ! object) (h ! object)")
  case (Inl a)
  then show ?thesis using assms
    by (simp add: Diff_def DeepCopy_def Let_def nth_append existingAfterGet_def)
next
  case (Inr b)
  then show ?thesis using assms
    by (simp add: Diff_def DeepCopy_def Let_def nth_append existingAfterGet_def)
qed

lemma Diff_Secret:
  assumes "object < length h" and "dryRunApply kc (h ! object) = Inr applied"
    and "GetResourceVersion applied \<noteq> []"
    and "fst (hasDrifted kc (existingAfterGet kc (h ! object)) applied)"
    and "GetKind applied = ''Secret''"
  shows "fst (Diff kc h object) =
           (case fmt_MaskSecret kc (RemoveManagedFields applied) ''******'' of
              Inl err \<Rightarrow> Inl (maskingFailed err)
            | Inr d \<Rightarrow>
               (case fmt_MaskSecret kc
                       (RemoveManagedFields (existingAfterGet kc (h ! object))) ''*****'' of
                  Inl err \<Rightarrow> Inl (maskingFailed err)
                | Inr ex \<Rightarrow>
                    Inr ((changeSetEntry kc (h ! object) ConfiguredAction)
                           \<lparr>Diff_text := cmp_Diff kc (yaml_Marshal kc ex) (yaml_Marshal kc d)\<rparr>)))"
proof (cases "kubeClient_Get kc (h ! object) (h ! object)")
  case (Inl a)
  then show ?thesis using assms
    by (simp add: Diff_def DeepCopy_def Let_def nth_append existingAfterGet_def
          split: sum.splits)
next
  case (Inr b)
  then show ?thesis using assms
    by (simp add: Diff_def DeepCopy_def Let_def nth_append existingAfterGet_def
          split: sum.splits)
qed

lemma Diff_heap_frame:
  assumes "object < length h"
  shows "take (length h) (snd (Diff kc h object)) = h"
proof (cases "kubeClient_Get kc (h ! object) (h ! object)")
  case (Inl a)
  then show ?thesis using assms
    by (simp add: Diff_def DeepCopy_def Let_def nth_append
          split: sum.splits prod.splits option.splits)
next
  case (Inr b)
  then show ?thesis using assms
    by (simp add: Diff_def DeepCopy_def Let_def nth_append
          split: sum.splits prod.splits option.splits)
qed

section \<open>Classification of a never-applied object\<close>

text \<open>
  Claim C1. When the dry-run apply of the object succeeds and its result carries no resource
  version, \<^verbatim>\<open>Diff\<close> returns the entry of the dry-run result with action Created, and
  \<^verbatim>\<open>hasDrifted\<close> returns true on that dry-run result against every existing object, without
  making any comparison.
\<close>

theorem Diff_no_resourceVersion_Created:
  assumes "object < length h"
    and "dryRunApply kc (h ! object) = Inr applied"
    and "GetResourceVersion applied = []"
  shows "fst (Diff kc h object) = Inr (changeSetEntry kc applied CreatedAction)
       \<and> Action (changeSetEntry kc applied CreatedAction) = CreatedAction
       \<and> (\<forall>existingObject. hasDrifted kc existingObject applied = (True, []))"
  using Diff_Created [OF assms] assms(3)
  by (simp add: changeSetEntry_def hasDrifted_def)

theorem Diff_no_resourceVersion_Created_witness:
  "(0::nat) < length [configMap [] ''v'']
   \<and> dryRunApply (fakeManager (Inl (ApiError True ''not found'')) (Inr (configMap [] ''v'')))
        ([configMap [] ''v''] ! 0) = Inr (configMap [] ''v'')
   \<and> GetResourceVersion (configMap [] ''v'') = []
   \<and> fst (Diff (fakeManager (Inl (ApiError True ''not found'')) (Inr (configMap [] ''v'')))
            [configMap [] ''v''] 0)
       = Inr \<lparr>Subject = ''ConfigMap//cfg1'', Action = CreatedAction, Diff_text = []\<rparr>"
proof -
  have a: "dryRunApply (fakeManager (Inl (ApiError True ''not found'')) (Inr (configMap [] ''v'')))
             ([configMap [] ''v''] ! 0) = Inr (configMap [] ''v'')"
    by (simp add: fakeManager_def)
  have b: "GetResourceVersion (configMap [] ''v'') = []"
    by (simp add: eval_simps)
  have c: "changeSetEntry (fakeManager (Inl (ApiError True ''not found'')) (Inr (configMap [] ''v'')))
             (configMap [] ''v'') CreatedAction
           = \<lparr>Subject = ''ConfigMap//cfg1'', Action = CreatedAction, Diff_text = []\<rparr>"
    by (simp add: changeSetEntry_def fakeManager_def FmtUnstructured_def eval_simps)
  show ?thesis
    using Diff_no_resourceVersion_Created [OF _ a b] a b c by simp
qed

section \<open>Order and short-circuit of the drift checks\<close>

text \<open>
  Claim C2. When the dry-run result has a resource version, \<^verbatim>\<open>hasDrifted\<close> calls the
  comparison on the labels, then on the annotations, then on exactly one body scope (\<^verbatim>\<open>spec\<close>
  if the existing object has that field, else \<^verbatim>\<open>webhooks\<close> if it has that one, else the whole
  body), stops after the first call that reports a mismatch, and returns true exactly when
  one of the calls it made reported a mismatch.
\<close>

theorem hasDrifted_checks_in_order:
  assumes "GetResourceVersion dryRunObject \<noteq> []"
  shows "snd (hasDrifted kc existingObject dryRunObject) =
           take (Suc (length (takeWhile (\<lambda>(a1, a2). DeepDerivative kc a1 a2)
                                 (comparisons existingObject dryRunObject))))
                (comparisons existingObject dryRunObject)
       \<and> fst (hasDrifted kc existingObject dryRunObject) =
           (\<exists>(a1, a2) \<in> set (snd (hasDrifted kc existingObject dryRunObject)).
               \<not> DeepDerivative kc a1 a2)
       \<and> fst (hasDrifted kc existingObject dryRunObject) =
           (\<exists>(a1, a2) \<in> set (comparisons existingObject dryRunObject).
               \<not> DeepDerivative kc a1 a2)"
  using assms
  by (simp add: hasDrifted_def comparisons_def bodyScope_def Let_def)

theorem hasDrifted_checks_in_order_witness:
  "GetResourceVersion (deployment [(''resourceVersion'', JStr ''7'')] 2) \<noteq> []
   \<and> hasDrifted (fakeManager (Inl (ApiError True [])) (Inl (ApiError True [])))
        (deployment [(''resourceVersion'', JStr ''7''), (''annotations'', JMap fmempty)] 1)
        (deployment [(''resourceVersion'', JStr ''7'')] 2)
     = (True, [(JMap (fmap_of_list [(''app'', JStr ''web'')]),
                JMap (fmap_of_list [(''app'', JStr ''web'')])),
               (JNull, JMap fmempty),
               (JMap (fmap_of_list [(''replicas'', JNum 2)]),
                JMap (fmap_of_list [(''replicas'', JNum 1)]))])"
proof -
  let ?kc = "fakeManager (Inl (ApiError True [])) (Inl (ApiError True []))"
  let ?e = "deployment [(''resourceVersion'', JStr ''7''), (''annotations'', JMap fmempty)] 1"
  let ?d = "deployment [(''resourceVersion'', JStr ''7'')] 2"
  have rv: "GetResourceVersion ?d \<noteq> []"
    by (simp add: eval_simps)
  have cs: "comparisons ?e ?d =
      [(JMap (fmap_of_list [(''app'', JStr ''web'')]),
        JMap (fmap_of_list [(''app'', JStr ''web'')])),
       (JNull, JMap fmempty),
       (JMap (fmap_of_list [(''replicas'', JNum 2)]),
        JMap (fmap_of_list [(''replicas'', JNum 1)]))]"
    by (simp add: comparisons_def bodyScope_def eval_simps split: if_splits)
  have dd: "DeepDerivative ?kc = derives"
    by (simp add: fakeManager_def)
  have tw: "takeWhile (\<lambda>(a1, a2). derives a1 a2) (comparisons ?e ?d)
              = take 2 (comparisons ?e ?d)"
    unfolding cs by (simp add: fmpred_iff)
  from hasDrifted_checks_in_order [OF rv, of ?kc ?e]
  show ?thesis
    using rv unfolding dd tw unfolding cs
    by (simp add: prod_eq_iff fmpred_iff)
qed

section \<open>What the drift checks look at\<close>

lemma hasDrifted_fst:
  assumes "GetResourceVersion dryRunObject \<noteq> []"
  shows "fst (hasDrifted kc existingObject dryRunObject) =
           (\<exists>(a1, a2) \<in> set (comparisons existingObject dryRunObject).
               \<not> DeepDerivative kc a1 a2)"
  using assms
  by (simp add: hasDrifted_def comparisons_def bodyScope_def Let_def)

lemma derives_refl: "derives v v"
  by (induction v) (auto simp: fmpred_iff fmran'I)




section \<open>A second pass over an unchanged object\<close>

text \<open>
  Claim C4. On a second call with the same object and no change in between, the live object
  that \<^verbatim>\<open>Get\<close> returns and the result of the dry-run apply are the same object, which has a
  resource version. Provided the comparison accepts each compared value of that object
  against itself, \<^verbatim>\<open>Diff\<close> returns its entry with action Unchanged and empty diff text.
\<close>

theorem Diff_second_pass_Unchanged:
  assumes "object < length h"
    and "kubeClient_Get kc (h ! object) (h ! object) = Inr live"
    and "dryRunApply kc (h ! object) = Inr live"
    and "GetResourceVersion live \<noteq> []"
    and "\<forall>(a1, a2) \<in> set (comparisons live live). DeepDerivative kc a1 a2"
  shows "fst (Diff kc h object) = Inr (changeSetEntry kc live UnchangedAction)
       \<and> Action (changeSetEntry kc live UnchangedAction) = UnchangedAction
       \<and> Diff_text (changeSetEntry kc live UnchangedAction) = []"
proof -
  have ex: "existingAfterGet kc (h ! object) = live"
    using assms(2) by (simp add: existingAfterGet_def)
  have "\<not> fst (hasDrifted kc live live)"
    unfolding hasDrifted_fst [OF assms(4)] using assms(5) by blast
  then show ?thesis
    using Diff_Unchanged [OF assms(1) assms(3) assms(4)] ex
    by (simp add: changeSetEntry_def)
qed

theorem Diff_second_pass_Unchanged_witness:
  "(0::nat) < length [configMap [] ''v'']
   \<and> GetResourceVersion (configMap [(''resourceVersion'', JStr ''7'')] ''v'') \<noteq> []
   \<and> list_all (\<lambda>(a1, a2). derives a1 a2)
        (comparisons (configMap [(''resourceVersion'', JStr ''7'')] ''v'')
                     (configMap [(''resourceVersion'', JStr ''7'')] ''v''))
   \<and> fst (Diff (fakeManager (Inr (configMap [(''resourceVersion'', JStr ''7'')] ''v''))
                             (Inr (configMap [(''resourceVersion'', JStr ''7'')] ''v'')))
            [configMap [] ''v''] 0)
       = Inr \<lparr>Subject = ''ConfigMap//cfg1'', Action = UnchangedAction, Diff_text = []\<rparr>"
proof -
  let ?live = "configMap [(''resourceVersion'', JStr ''7'')] ''v''"
  let ?kc = "fakeManager (Inr ?live) (Inr ?live)"
  let ?h = "[configMap [] ''v'']"
  have g: "kubeClient_Get ?kc (?h ! 0) (?h ! 0) = Inr ?live" by (simp add: fakeManager_def)
  have a: "dryRunApply ?kc (?h ! 0) = Inr ?live" by (simp add: fakeManager_def)
  have rv: "GetResourceVersion ?live \<noteq> []" by (simp add: eval_simps)
  have c: "\<forall>(a1, a2) \<in> set (comparisons ?live ?live). DeepDerivative ?kc a1 a2"
    by (simp add: fakeManager_def comparisons_def bodyScope_def derives_refl del: derives.simps)
  have s: "changeSetEntry ?kc ?live UnchangedAction
           = \<lparr>Subject = ''ConfigMap//cfg1'', Action = UnchangedAction, Diff_text = []\<rparr>"
    by (simp add: changeSetEntry_def fakeManager_def FmtUnstructured_def eval_simps)
  have c': "list_all (\<lambda>(a1, a2). derives a1 a2) (comparisons ?live ?live)"
    by (simp add: comparisons_def bodyScope_def derives_refl del: derives.simps)
  show ?thesis
    using Diff_second_pass_Unchanged [OF _ g a rv c] rv s c' by simp
qed

section \<open>The caller's object\<close>

text \<open>
  Claim C9. \<^verbatim>\<open>Diff\<close> leaves the caller's object as it was: every cell of the store that
  existed before the call, the one the argument points to among them, holds the same object
  after the call. The dry-run apply, the removal of \<^verbatim>\<open>managedFields\<close> and the masking write to
  the cells that \<^verbatim>\<open>DeepCopy\<close> allocated.
\<close>

theorem Diff_keeps_callers_object:
  assumes "object < length h"
  shows "snd (Diff kc h object) ! object = h ! object
       \<and> take (length h) (snd (Diff kc h object)) = h"
proof -
  have t: "take (length h) (snd (Diff kc h object)) = h"
    by (rule Diff_heap_frame [OF assms])
  have "take (length h) (snd (Diff kc h object)) ! object = snd (Diff kc h object) ! object"
    using assms by simp
  with t show ?thesis by simp
qed

theorem Diff_keeps_callers_object_witness:
  "(0::nat) < length [secret [] ''hunter2'']
   \<and> snd (Diff (fakeManager (Inr (secret [(''resourceVersion'', JStr ''7'')] ''old''))
                            (Inr (secret [(''resourceVersion'', JStr ''8'')] ''hunter2'')))
            [secret [] ''hunter2''] 0) ! 0 = secret [] ''hunter2''"
  using Diff_keeps_callers_object
     [of 0 "[secret [] ''hunter2'']"
         "fakeManager (Inr (secret [(''resourceVersion'', JStr ''7'')] ''old''))
                      (Inr (secret [(''resourceVersion'', JStr ''8'')] ''hunter2''))"]
  by simp

section \<open>A failed Get\<close>

lemma validationError_Get_irrelevant [simp]:
  "validationError (kc\<lparr>kubeClient_Get := g\<rparr>) = validationError kc"
  by (intro ext) (simp add: validationError_def)

lemma changeSetEntry_Get_irrelevant [simp]:
  "changeSetEntry (kc\<lparr>kubeClient_Get := g\<rparr>) = changeSetEntry kc"
  by (intro ext) (simp add: changeSetEntry_def)

lemma hasDrifted_Get_irrelevant [simp]:
  "hasDrifted (kc\<lparr>kubeClient_Get := g\<rparr>) = hasDrifted kc"
  by (intro ext) (simp add: hasDrifted_def Let_def cong: if_cong)

text \<open>
  Claim C10. Whatever error the \<^verbatim>\<open>Get\<close> returns, \<^verbatim>\<open>Diff\<close> drops it: the existing object
  stays the copy of the desired object, and the call returns what it returns over a cluster
  whose \<^verbatim>\<open>Get\<close> succeeds and leaves that copy as it is.
\<close>

theorem Diff_discards_Get_error:
  assumes "object < length h"
    and "kubeClient_Get kc (h ! object) (h ! object) = Inl err"
  shows "existingAfterGet kc (h ! object) = h ! object
       \<and> Diff kc h object = Diff (kc\<lparr>kubeClient_Get := (\<lambda>key out. Inr out)\<rparr>) h object"
proof -
  have 1: "(h @ [h ! object]) ! object = h ! object"
    using assms(1) by (simp add: nth_append)
  have 3: "(h @ [h ! object])[length h := h ! object] = h @ [h ! object]"
    by simp
  have "Diff kc h object = Diff (kc\<lparr>kubeClient_Get := (\<lambda>key out. Inr out)\<rparr>) h object"
    unfolding Diff_def DeepCopy_def
    by (simp add: 1 3 assms(2) Let_def
          cong: if_cong sum.case_cong prod.case_cong option.case_cong)
  then show ?thesis
    using assms(2) by (simp add: existingAfterGet_def)
qed

theorem Diff_discards_Get_error_witness:
  "(0::nat) < length [configMap [] ''v'']
   \<and> kubeClient_Get (fakeManager (Inl (ApiError False ''connection refused''))
                         (Inr (configMap [(''resourceVersion'', JStr ''7'')] ''w'')))
        ([configMap [] ''v''] ! 0) ([configMap [] ''v''] ! 0)
       = Inl (ApiError False ''connection refused'')
   \<and> existingAfterGet (fakeManager (Inl (ApiError False ''connection refused''))
                         (Inr (configMap [(''resourceVersion'', JStr ''7'')] ''w'')))
        (configMap [] ''v'') = configMap [] ''v''
   \<and> Diff (fakeManager (Inl (ApiError False ''connection refused''))
                         (Inr (configMap [(''resourceVersion'', JStr ''7'')] ''w'')))
        [configMap [] ''v''] 0
     = Diff ((fakeManager (Inl (ApiError False ''connection refused''))
                         (Inr (configMap [(''resourceVersion'', JStr ''7'')] ''w'')))
              \<lparr>kubeClient_Get := (\<lambda>key out. Inr out)\<rparr>)
        [configMap [] ''v''] 0"
proof -
  let ?kc = "fakeManager (Inl (ApiError False ''connection refused''))
                         (Inr (configMap [(''resourceVersion'', JStr ''7'')] ''w''))"
  let ?h = "[configMap [] ''v'']"
  have g: "kubeClient_Get ?kc (?h ! 0) (?h ! 0) = Inl (ApiError False ''connection refused'')"
    by (simp add: fakeManager_def)
  show ?thesis
    using Diff_discards_Get_error [OF _ g] g by simp
qed

section \<open>Masking of Secrets\<close>

lemma RemoveManagedFields_secret:
  "RemoveManagedFields (secret [(''resourceVersion'', JStr rv)] p) = secret [(''resourceVersion'', JStr rv)] p"
  by (rule fmap_ext) (auto simp add: RemoveManagedFields_def secret_def fmdrop_fmupd)

lemma MaskSecret_secret:
  "MaskSecret (secret extra p) t = Inr (secret extra t)"
  by (simp add: MaskSecret_def secret_def, rule fmap_ext, auto simp: fmmap_fmupd)

lemma derives_JMap_lookup:
  assumes "derives (JMap d) (JMap l)" and "fmlookup d k = Some v"
  shows "\<exists>lv. fmlookup l k = Some lv \<and> derives v lv"
proof -
  from assms(1) have "fmpred (\<lambda>k m. case fmlookup l k of None \<Rightarrow> False | Some lv \<Rightarrow> m lv)
                        (fmmap derives d)"
    by simp
  moreover have "fmlookup (fmmap derives d) k = Some (derives v)"
    using assms(2) by simp
  ultimately have "case fmlookup l k of None \<Rightarrow> False | Some lv \<Rightarrow> derives v lv"
    by (rule fmpredD)
  then show ?thesis by (cases "fmlookup l k") simp_all
qed

text \<open>
  Claim C6. When \<^verbatim>\<open>Diff\<close> reaches the masking step (the dry-run result is a Secret with a
  resource version and has drifted), it masks the dry-run copy with the token \<^verbatim>\<open>******\<close> and the
  existing copy with the token \<^verbatim>\<open>*****\<close>, and renders the diff from the two masked copies;
  the two tokens differ, whatever the objects hold.
\<close>

theorem Diff_mask_tokens_differ:
  assumes "object < length h"
    and "dryRunApply kc (h ! object) = Inr applied"
    and "GetResourceVersion applied \<noteq> []"
    and "fst (hasDrifted kc (existingAfterGet kc (h ! object)) applied)"
    and "GetKind applied = ''Secret''"
  shows "fst (Diff kc h object) =
           (case fmt_MaskSecret kc (RemoveManagedFields applied) ''******'' of
              Inl err \<Rightarrow> Inl (maskingFailed err)
            | Inr d \<Rightarrow>
               (case fmt_MaskSecret kc
                       (RemoveManagedFields (existingAfterGet kc (h ! object))) ''*****'' of
                  Inl err \<Rightarrow> Inl (maskingFailed err)
                | Inr ex \<Rightarrow>
                    Inr ((changeSetEntry kc (h ! object) ConfiguredAction)
                           \<lparr>Diff_text := cmp_Diff kc (yaml_Marshal kc ex) (yaml_Marshal kc d)\<rparr>)))
       \<and> ''******'' \<noteq> ''*****''"
  using Diff_Secret [OF assms] by simp

theorem Diff_mask_tokens_differ_witness:
  "(0::nat) < length [secret [] ''pw'']
   \<and> GetKind (secret [(''resourceVersion'', JStr ''8'')] ''pw'') = ''Secret''
   \<and> MaskSecret (RemoveManagedFields (secret [(''resourceVersion'', JStr ''8'')] ''pw'')) ''******''
       = Inr (secret [(''resourceVersion'', JStr ''8'')] ''******'')
   \<and> MaskSecret (RemoveManagedFields (secret [(''resourceVersion'', JStr ''7'')] ''pw'')) ''*****''
       = Inr (secret [(''resourceVersion'', JStr ''7'')] ''*****'')
   \<and> fst (Diff (fakeManager (Inr (secret [(''resourceVersion'', JStr ''7'')] ''pw''))
                             (Inr (secret [(''resourceVersion'', JStr ''8'')] ''pw'')))
            [secret [] ''pw''] 0)
       = Inr \<lparr>Subject = ''Secret//db'', Action = ConfiguredAction, Diff_text = ''changed''\<rparr>"
proof -
  let ?e = "secret [(''resourceVersion'', JStr ''7'')] ''pw''"
  let ?d = "secret [(''resourceVersion'', JStr ''8'')] ''pw''"
  let ?kc = "fakeManager (Inr ?e) (Inr ?d)"
  let ?h = "[secret [] ''pw'']"
  have a: "dryRunApply ?kc (?h ! 0) = Inr ?d" by (simp add: fakeManager_def)
  have rv: "GetResourceVersion ?d \<noteq> []" by (simp add: eval_simps)
  have ex: "existingAfterGet ?kc (?h ! 0) = ?e" by (simp add: existingAfterGet_def fakeManager_def)
  have nb: "\<not> derives (JMap ?d) (JMap ?e)"
  proof
    assume "derives (JMap ?d) (JMap ?e)"
    from derives_JMap_lookup [OF this, of "''metadata''"]
    have "derives (JMap (fmap_of_list [(''name'', JStr ''db''), (''resourceVersion'', JStr ''8'')]))
                  (JMap (fmap_of_list [(''name'', JStr ''db''), (''resourceVersion'', JStr ''7'')]))"
      by (simp add: secret_def)
    from derives_JMap_lookup [OF this, of "''resourceVersion''"]
    show False by simp
  qed
  have bs: "bodyScope ?e ?d = (JMap ?d, JMap ?e)"
    by (simp add: bodyScope_def hasKey_def secret_def)
  have dr: "fst (hasDrifted ?kc (existingAfterGet ?kc (?h ! 0)) ?d)"
    unfolding ex hasDrifted_fst [OF rv] comparisons_def bs
    using nb by (simp add: fakeManager_def del: derives.simps)
  have k: "GetKind ?d = ''Secret''" by (simp add: eval_simps)
  have md: "fmt_MaskSecret ?kc (RemoveManagedFields ?d) ''******''
            = Inr (secret [(''resourceVersion'', JStr ''8'')] ''******'')"
    by (simp add: fakeManager_def RemoveManagedFields_secret MaskSecret_secret)
  have me: "fmt_MaskSecret ?kc (RemoveManagedFields (existingAfterGet ?kc (?h ! 0))) ''*****''
            = Inr (secret [(''resourceVersion'', JStr ''7'')] ''*****'')"
    unfolding ex by (simp add: fakeManager_def RemoveManagedFields_secret MaskSecret_secret)
  have ne: "secret [(''resourceVersion'', JStr ''7'')] ''*****''
            \<noteq> secret [(''resourceVersion'', JStr ''8'')] ''******''"
  proof
    assume "secret [(''resourceVersion'', JStr ''7'')] ''*****''
            = secret [(''resourceVersion'', JStr ''8'')] ''******''"
    then have "fmlookup (secret [(''resourceVersion'', JStr ''7'')] ''*****'') ''data''
             = fmlookup (secret [(''resourceVersion'', JStr ''8'')] ''******'') ''data''"
      by simp
    then have "fmlookup (fmupd ''password'' (JStr ''*****'') fmempty) ''password''
             = fmlookup (fmupd ''password'' (JStr ''******'') fmempty) ''password''"
      by (simp add: secret_def)
    then show False by simp
  qed
  have cse: "changeSetEntry ?kc (?h ! 0) ConfiguredAction
             = \<lparr>Subject = ''Secret//db'', Action = ConfiguredAction, Diff_text = []\<rparr>"
    by (simp add: changeSetEntry_def fakeManager_def FmtUnstructured_def eval_simps)
  have "fst (Diff ?kc ?h 0)
        = Inr \<lparr>Subject = ''Secret//db'', Action = ConfiguredAction, Diff_text = ''changed''\<rparr>"
    using Diff_mask_tokens_differ [OF _ a rv dr k] md me ne cse
    by (simp add: fakeManager_def)
  then show ?thesis
    using k RemoveManagedFields_secret MaskSecret_secret by simp
qed


section \<open>Insertion order of labels and annotations\<close>






section \<open>Secrets in the output of Diff\<close>




section \<open>The inventory is stored after the applies\<close>

lemma appliedObjects_append [simp]:
  "appliedObjects (xs @ ys) = appliedObjects xs @ appliedObjects ys"
  by (simp add: appliedObjects_def)

lemma appliedObjects_simps [simp]:
  "appliedObjects [] = []"
  "appliedObjects (ApplyEv object frc None # tr) = object # appliedObjects tr"
  "appliedObjects (ApplyEv object frc (Some err) # tr) = appliedObjects tr"
  "appliedObjects (Println line # tr) = appliedObjects tr"
  "appliedObjects (GetStaleObjectsEv r # tr) = appliedObjects tr"
  by (simp_all add: appliedObjects_def)

lemma isFailedApplyEv_isApplyEv: "isFailedApplyEv ev \<Longrightarrow> isApplyEv ev"
  by (cases ev) (simp_all add: isFailedApplyEv_def isApplyEv_def)

lemma applyLoop_trace:
  assumes "applyLoop env frc objects (w, tr0) = (res, w', tr)"
  shows "\<exists>evs. tr = tr0 @ evs
           \<and> (\<forall>ev \<in> set evs. \<not> isInventoryEv ev \<and> \<not> isStoreEv ev)
           \<and> (res = None \<longrightarrow> appliedObjects evs = objects
                               \<and> (\<forall>ev \<in> set evs. \<not> isFailedApplyEv ev))
           \<and> (\<forall>err. res = Some err \<longrightarrow>
                  evs \<noteq> [] \<and> (\<exists>object. last evs = ApplyEv object frc (Some err)))"
  using assms
proof (induction objects arbitrary: w tr0)
  case Nil
  then show ?case by simp
next
  case (Cons object objects)
  show ?case
  proof (cases "resMgr_Apply env object frc w")
    case (Pair r w1)
    show ?thesis
    proof (cases r)
      case (Inl err)
      with Pair Cons.prems have "res = Some err" "tr = tr0 @ [ApplyEv object frc (Some err)]"
        by auto
      then show ?thesis
        by (intro exI [of _ "[ApplyEv object frc (Some err)]"])
           (simp add: isInventoryEv_def isStoreEv_def)
    next
      case (Inr change)
      with Pair Cons.prems have
        "applyLoop env frc objects
           (w1, tr0 @ [ApplyEv object frc None, Println (change_String env change)])
         = (res, w', tr)"
        by simp
      from Cons.IH [OF this] obtain evs where evs:
        "tr = (tr0 @ [ApplyEv object frc None, Println (change_String env change)]) @ evs"
        "\<forall>ev \<in> set evs. \<not> isInventoryEv ev \<and> \<not> isStoreEv ev"
        "res = None \<longrightarrow> appliedObjects evs = objects \<and> (\<forall>ev \<in> set evs. \<not> isFailedApplyEv ev)"
        "\<forall>err. res = Some err \<longrightarrow>
            evs \<noteq> [] \<and> (\<exists>object. last evs = ApplyEv object frc (Some err))"
        by blast
      show ?thesis
      proof (intro exI conjI)
        show "tr = tr0 @ ([ApplyEv object frc None, Println (change_String env change)] @ evs)"
          using evs(1) by simp
        show "\<forall>ev \<in> set ([ApplyEv object frc None, Println (change_String env change)] @ evs).
                \<not> isInventoryEv ev \<and> \<not> isStoreEv ev"
          using evs(2) by (simp add: isInventoryEv_def isStoreEv_def)
        show "res = None \<longrightarrow>
                appliedObjects ([ApplyEv object frc None, Println (change_String env change)] @ evs)
                  = object # objects
                \<and> (\<forall>ev \<in> set ([ApplyEv object frc None, Println (change_String env change)] @ evs).
                      \<not> isFailedApplyEv ev)"
          using evs(3) by (simp add: isFailedApplyEv_def)
        show "\<forall>err. res = Some err \<longrightarrow>
                [ApplyEv object frc None, Println (change_String env change)] @ evs \<noteq> []
                \<and> (\<exists>object'. last ([ApplyEv object frc None, Println (change_String env change)] @ evs)
                      = ApplyEv object' frc (Some err))"
          using evs(4) by simp
      qed
    qed
  qed
qed

lemma pruneAndWait_trace:
  assumes "pruneAndWait env args objects staleObjects (w, tr0) = (res, w', tr)"
  shows "\<exists>evs. tr = tr0 @ evs
           \<and> (\<forall>ev \<in> set evs. \<not> isApplyEv ev \<and> \<not> isInventoryEv ev \<and> \<not> isStoreEv ev)"
proof -
  have "\<exists>evs. snd (snd (pruneAndWait env args objects staleObjects (w, tr0))) = tr0 @ evs
           \<and> (\<forall>ev \<in> set evs. \<not> isApplyEv ev \<and> \<not> isInventoryEv ev \<and> \<not> isStoreEv ev)"
    unfolding pruneAndWait_def
    by (auto simp: Let_def isApplyEv_def isInventoryEv_def isStoreEv_def
             split: prod.splits sum.splits option.splits)
  then show ?thesis using assms by simp
qed

lemma runApplyCmd_trace:
  assumes "runApplyCmd env args w0 = (res, w, tr)"
  shows "tr = []
       \<or> (\<exists>object err. res = Some err \<and> tr \<noteq> []
             \<and> last tr = ApplyEv object (force args) (Some err)
             \<and> (\<forall>ev \<in> set tr. \<not> isInventoryEv ev \<and> \<not> isStoreEv ev))
       \<or> (\<exists>objects tr1.
             buildManifests env (kustomize args) (filename args) = Inr objects
             \<and> appliedObjects tr1 = objects
             \<and> (\<forall>ev \<in> set tr1. \<not> isFailedApplyEv ev \<and> \<not> isStoreEv ev)
             \<and> ((\<exists>g. tr = tr1 @ [GetStaleObjectsEv (Some g)])
                \<or> (\<exists>r rest. tr = tr1 @ GetStaleObjectsEv None # StoreEv r # rest
                      \<and> (\<forall>ev \<in> set rest. \<not> isApplyEv ev \<and> \<not> isStoreEv ev))))"
proof (cases "buildManifests env (kustomize args) (filename args)")
  case (Inl e)
  with assms show ?thesis
    by (simp add: runApplyCmd_def split: if_splits)
next
  case bm: (Inr objects)
  show ?thesis
  proof (cases "inventoryMgr_Record env objects")
    case (Inl e)
    with assms bm show ?thesis
      by (simp add: runApplyCmd_def split: if_splits)
  next
    case rec: (Inr newInventory)
    show ?thesis
    proof (cases "NewResourceManager env")
      case (Some e)
      with assms bm rec show ?thesis
        by (simp add: runApplyCmd_def split: if_splits)
    next
      case nrm: None
      obtain r1 w1 tr1 where al: "applyLoop env (force args) objects (w0, []) = (r1, w1, tr1)"
        by (cases "applyLoop env (force args) objects (w0, [])") auto
      from applyLoop_trace [OF al] have tr1:
        "\<forall>ev \<in> set tr1. \<not> isInventoryEv ev \<and> \<not> isStoreEv ev"
        "r1 = None \<longrightarrow> appliedObjects tr1 = objects \<and> (\<forall>ev \<in> set tr1. \<not> isFailedApplyEv ev)"
        "\<forall>err. r1 = Some err \<longrightarrow>
            tr1 \<noteq> [] \<and> (\<exists>object. last tr1 = ApplyEv object (force args) (Some err))"
        by auto
      show ?thesis
      proof (cases "kustomize args = [] \<and> length (filename args) = 0
                    \<or> inventoryName args = [] \<or> inventoryNamespace args = []")
        case True
        with assms show ?thesis
          by (auto simp: runApplyCmd_def split: if_splits)
      next
        case False
        then have f: "(kustomize args = [] \<and> filename args = []) = False"
                     "(inventoryName args = []) = False" "(inventoryNamespace args = []) = False"
          by auto
        have flags: "runApplyCmd env args w0 =
            (case applyLoop env (force args) objects (w0, []) of
               (Some err, w1, tr1) \<Rightarrow> (Some err, w1, tr1)
             | (None, w1, tr1) \<Rightarrow>
                (case inventoryMgr_GetStaleObjects env newInventory
                        (inventoryName args) (inventoryNamespace args) w1 of
                   (Inl err, w2) \<Rightarrow>
                     (Some (Errorf (''inventory query failed, error: '' @ Error err)
                              (Some err)),
                      w2, tr1 @ [GetStaleObjectsEv (Some err)])
                 | (Inr staleObjects, w2) \<Rightarrow>
                    (case inventoryMgr_Store env newInventory
                            (inventoryName args) (inventoryNamespace args) w2 of
                       (Some err, w3) \<Rightarrow>
                         (Some (Errorf (''inventory apply failed, error: '' @ Error err)
                                  (Some err)),
                          w3, tr1 @ [GetStaleObjectsEv None, StoreEv (Some err)])
                     | (None, w3) \<Rightarrow>
                         pruneAndWait env args objects staleObjects
                           (w3, tr1 @ [GetStaleObjectsEv None, StoreEv None]))))"
          unfolding runApplyCmd_def by (simp add: f bm rec nrm)
        show ?thesis
        proof (cases r1)
          case (Some err)
          with assms al flags have "res = Some err" "tr = tr1"
            by simp_all
          with tr1 Some show ?thesis by auto
        next
          case None
          obtain r2 w2 where gs:
            "inventoryMgr_GetStaleObjects env newInventory (inventoryName args)
               (inventoryNamespace args) w1 = (r2, w2)"
            by (cases "inventoryMgr_GetStaleObjects env newInventory (inventoryName args)
               (inventoryNamespace args) w1") auto
          show ?thesis
          proof (cases r2)
            case (Inl g)
            with assms al flags None gs have "tr = tr1 @ [GetStaleObjectsEv (Some g)]"
              by simp
            with tr1 None bm show ?thesis by auto
          next
            case (Inr staleObjects)
            obtain r3 w3 where st:
              "inventoryMgr_Store env newInventory (inventoryName args)
                 (inventoryNamespace args) w2 = (r3, w3)"
              by (cases "inventoryMgr_Store env newInventory (inventoryName args)
                 (inventoryNamespace args) w2") auto
            show ?thesis
            proof (cases r3)
              case (Some s)
              with assms al flags None gs Inr st
              have "tr = tr1 @ GetStaleObjectsEv None # StoreEv (Some s) # []"
                by simp
              with tr1 None bm show ?thesis by auto
            next
              case stored: None
              with assms al flags None gs Inr st
              have "pruneAndWait env args objects staleObjects
                      (w3, tr1 @ [GetStaleObjectsEv None, StoreEv None]) = (res, w, tr)"
                by simp
              from pruneAndWait_trace [OF this] obtain evs where
                "tr = (tr1 @ [GetStaleObjectsEv None, StoreEv None]) @ evs"
                "\<forall>ev \<in> set evs. \<not> isApplyEv ev \<and> \<not> isInventoryEv ev \<and> \<not> isStoreEv ev"
                by blast
              then have "tr = tr1 @ GetStaleObjectsEv None # StoreEv None # evs
                         \<and> (\<forall>ev \<in> set evs. \<not> isApplyEv ev \<and> \<not> isStoreEv ev)"
                by simp
              with tr1 None bm show ?thesis by blast
            qed
          qed
        qed
      qed
    qed
  qed
qed

lemma nth_around_store:
  assumes "i < length (xs @ a # b # ys)"
  shows "(i < length xs \<and> (xs @ a # b # ys) ! i \<in> set xs)
       \<or> (i = length xs \<and> (xs @ a # b # ys) ! i = a)
       \<or> (i = Suc (length xs) \<and> (xs @ a # b # ys) ! i = b)
       \<or> (Suc (length xs) < i \<and> (xs @ a # b # ys) ! i \<in> set ys)"
proof -
  consider "i < length xs" | "i = length xs" | "i = Suc (length xs)" | "Suc (length xs) < i"
    by linarith
  then show ?thesis
  proof cases
    case 1
    then show ?thesis by (simp add: nth_append)
  next
    case 2
    then show ?thesis by simp
  next
    case 3
    then show ?thesis by (simp add: nth_append)
  next
    case 4
    then obtain k where k: "i = Suc (Suc (length xs)) + k"
      by (metis Suc_leI le_Suc_ex)
    then have "(xs @ a # b # ys) ! i = ys ! k"
      by (simp add: nth_append)
    moreover have "k < length ys" using assms k by simp
    ultimately show ?thesis using 4 by simp
  qed
qed

text \<open>
  Claim C8. In the trace of a run of the apply command, a call of \<^verbatim>\<open>Store\<close> comes only
  after every object of the run was applied with success: the objects applied before it are
  all the objects built from the manifests, no \<^verbatim>\<open>Apply\<close> of the run failed, and no \<^verbatim>\<open>Apply\<close>
  follows it. When an \<^verbatim>\<open>Apply\<close> fails, it is the last call of the run, the run returns its
  error, and neither \<^verbatim>\<open>GetStaleObjects\<close> nor \<^verbatim>\<open>Store\<close> is called.
\<close>

theorem runApplyCmd_Store_after_applies:
  assumes "runApplyCmd env args w0 = (res, w, tr)"
  shows "(\<forall>i < length tr. isStoreEv (tr ! i) \<longrightarrow>
            (\<exists>objects. buildManifests env (kustomize args) (filename args) = Inr objects
                       \<and> appliedObjects (take i tr) = objects)
            \<and> (\<forall>ev \<in> set tr. \<not> isFailedApplyEv ev)
            \<and> (\<forall>j < length tr. isApplyEv (tr ! j) \<longrightarrow> j < i))
       \<and> ((\<exists>ev \<in> set tr. isFailedApplyEv ev) \<longrightarrow>
            (\<forall>ev \<in> set tr. \<not> isInventoryEv ev)
            \<and> (\<exists>object err. last tr = ApplyEv object (force args) (Some err) \<and> res = Some err))"
proof -
  from runApplyCmd_trace [OF assms]
  consider (empty) "tr = []"
    | (failed) object err where "res = Some err" "tr \<noteq> []"
        "last tr = ApplyEv object (force args) (Some err)"
        "\<forall>ev \<in> set tr. \<not> isInventoryEv ev \<and> \<not> isStoreEv ev"
    | (query) objects tr1 g where
        "buildManifests env (kustomize args) (filename args) = Inr objects"
        "appliedObjects tr1 = objects"
        "\<forall>ev \<in> set tr1. \<not> isFailedApplyEv ev \<and> \<not> isStoreEv ev"
        "tr = tr1 @ [GetStaleObjectsEv (Some g)]"
    | (stored) objects tr1 r rest where
        "buildManifests env (kustomize args) (filename args) = Inr objects"
        "appliedObjects tr1 = objects"
        "\<forall>ev \<in> set tr1. \<not> isFailedApplyEv ev \<and> \<not> isStoreEv ev"
        "tr = tr1 @ GetStaleObjectsEv None # StoreEv r # rest"
        "\<forall>ev \<in> set rest. \<not> isApplyEv ev \<and> \<not> isStoreEv ev"
    by blast
  then show ?thesis
  proof cases
    case empty
    then show ?thesis by simp
  next
    case failed
    have "\<not> isStoreEv (tr ! i)" if "i < length tr" for i
      using failed(4) that by (simp add: nth_mem)
    with failed show ?thesis by auto
  next
    case query
    have a: "\<forall>ev \<in> set tr. \<not> isStoreEv ev" "\<forall>ev \<in> set tr. \<not> isFailedApplyEv ev"
      using query(3,4) by (auto simp: isStoreEv_def isFailedApplyEv_def)
    have "\<not> isStoreEv (tr ! i)" if "i < length tr" for i
      using a(1) that by (simp add: nth_mem)
    with a(2) show ?thesis by auto
  next
    case stored
    have nofail: "\<forall>ev \<in> set tr. \<not> isFailedApplyEv ev"
      using stored(3,4,5) isFailedApplyEv_isApplyEv
      by (auto simp: isFailedApplyEv_def)
    have pos: "i = Suc (length tr1)" if "i < length tr" "isStoreEv (tr ! i)" for i
      using nth_around_store [of i tr1 "GetStaleObjectsEv None" "StoreEv r" rest]
            that stored(3,5) unfolding stored(4)
      by (auto simp: isStoreEv_def)
    have before: "j < Suc (length tr1)" if "j < length tr" "isApplyEv (tr ! j)" for j
      using nth_around_store [of j tr1 "GetStaleObjectsEv None" "StoreEv r" rest]
            that stored(5) unfolding stored(4)
      by (auto simp: isApplyEv_def)
    have tk: "appliedObjects (take (Suc (length tr1)) tr) = objects"
      using stored(2) unfolding stored(4) by simp
    show ?thesis
      using nofail pos before tk stored(1) by auto
  qed
qed

theorem runApplyCmd_Store_after_applies_witness:
  "runApplyCmd fakeEnv
     \<lparr>filename = [''ConfigMap'', [], ''Secret''], kustomize = [], inventoryName = ''inv'',
      inventoryNamespace = ''default'', wait = False, force = False, prune = True\<rparr> None
   = (Some (ApiError False ''kind is missing''), None,
      [ApplyEv (fmupd ''kind'' (JStr ''ConfigMap'') fmempty) False None,
       Println ''ConfigMap'',
       ApplyEv (fmupd ''kind'' (JStr []) fmempty) False (Some (ApiError False ''kind is missing''))])
   \<and> runApplyCmd fakeEnv
     \<lparr>filename = [''ConfigMap'', ''Secret''], kustomize = [], inventoryName = ''inv'',
      inventoryNamespace = ''default'', wait = False, force = False, prune = True\<rparr> None
   = (None,
      Some [fmupd ''kind'' (JStr ''ConfigMap'') fmempty, fmupd ''kind'' (JStr ''Secret'') fmempty],
      [ApplyEv (fmupd ''kind'' (JStr ''ConfigMap'') fmempty) False None,
       Println ''ConfigMap'',
       ApplyEv (fmupd ''kind'' (JStr ''Secret'') fmempty) False None,
       Println ''Secret'',
       GetStaleObjectsEv None,
       StoreEv None])
   \<and> appliedObjects
        (take 5 [ApplyEv (fmupd ''kind'' (JStr ''ConfigMap'') fmempty) False None,
                 Println ''ConfigMap'',
                 ApplyEv (fmupd ''kind'' (JStr ''Secret'') fmempty) False None,
                 Println ''Secret'',
                 GetStaleObjectsEv None,
                 StoreEv None])
      = [fmupd ''kind'' (JStr ''ConfigMap'') fmempty, fmupd ''kind'' (JStr ''Secret'') fmempty]"
proof -
  let ?bad = "\<lparr>filename = [''ConfigMap'', [], ''Secret''], kustomize = [], inventoryName = ''inv'',
      inventoryNamespace = ''default'', wait = False, force = False, prune = True\<rparr>"
  let ?good = "\<lparr>filename = [''ConfigMap'', ''Secret''], kustomize = [], inventoryName = ''inv'',
      inventoryNamespace = ''default'', wait = False, force = False, prune = True\<rparr>"
  let ?tr = "[ApplyEv (fmupd ''kind'' (JStr ''ConfigMap'') fmempty) False None,
       Println ''ConfigMap'',
       ApplyEv (fmupd ''kind'' (JStr ''Secret'') fmempty) False None,
       Println ''Secret'',
       GetStaleObjectsEv None,
       StoreEv None]"
  have bad: "runApplyCmd fakeEnv ?bad None
   = (Some (ApiError False ''kind is missing''), None,
      [ApplyEv (fmupd ''kind'' (JStr ''ConfigMap'') fmempty) False None,
       Println ''ConfigMap'',
       ApplyEv (fmupd ''kind'' (JStr []) fmempty) False (Some (ApiError False ''kind is missing''))])"
    by (simp add: runApplyCmd_def fakeEnv_def GetKind_def NestedString_def)
  have good: "runApplyCmd fakeEnv ?good None
   = (None,
      Some [fmupd ''kind'' (JStr ''ConfigMap'') fmempty, fmupd ''kind'' (JStr ''Secret'') fmempty],
      ?tr)"
    by (simp add: runApplyCmd_def pruneAndWait_def fakeEnv_def GetKind_def NestedString_def)
  have bm: "buildManifests fakeEnv (kustomize ?good) (filename ?good)
            = Inr [fmupd ''kind'' (JStr ''ConfigMap'') fmempty, fmupd ''kind'' (JStr ''Secret'') fmempty]"
    by (simp add: fakeEnv_def)
  have st: "(5::nat) < length ?tr" "isStoreEv (?tr ! 5)"
    by (simp_all add: isStoreEv_def)
  from runApplyCmd_Store_after_applies [OF good] st
  have "\<exists>objects. buildManifests fakeEnv (kustomize ?good) (filename ?good) = Inr objects
                   \<and> appliedObjects (take 5 ?tr) = objects"
    by blast
  with bm have "appliedObjects (take 5 ?tr)
      = [fmupd ''kind'' (JStr ''ConfigMap'') fmempty, fmupd ''kind'' (JStr ''Secret'') fmempty]"
    by simp
  with bad good show ?thesis by (intro conjI)
qed

end
